theory Spec2Isabelle
  imports Main
begin

section \<open>Dates, times and the active window (app/utils.py)\<close>

text \<open>
  Python's \<open>datetime.date\<close> is a proleptic Gregorian ordinal between 1 (0001-01-01) and
  3652059 (9999-12-31); \<open>datetime.time\<close> is a tuple hour, minute, second, microsecond.
  A naive \<open>datetime\<close> is the pair of both, ordered lexicographically.  Arithmetic that
  leaves the range of dates raises \<open>OverflowError\<close>.
\<close>

datatype py_error = OverflowError

type_synonym date = int

record time =
  hour :: nat
  minute :: nat
  second :: nat
  microsecond :: nat

record datetime =
  dt_date :: date
  dt_time :: time

definition max_ordinal :: int where
  "max_ordinal = 3652059"

definition time_less :: "time \<Rightarrow> time \<Rightarrow> bool" where
  "time_less a b =
     (hour a < hour b \<or> (hour a = hour b \<and>
       (minute a < minute b \<or> (minute a = minute b \<and>
         (second a < second b \<or> (second a = second b \<and>
           microsecond a < microsecond b))))))"

definition time_eq :: "time \<Rightarrow> time \<Rightarrow> bool" where
  "time_eq a b =
     (hour a = hour b \<and> minute a = minute b \<and> second a = second b \<and>
      microsecond a = microsecond b)"

definition dt_less :: "datetime \<Rightarrow> datetime \<Rightarrow> bool" where
  "dt_less a b =
     (dt_date a < dt_date b \<or> (dt_date a = dt_date b \<and> time_less (dt_time a) (dt_time b)))"

definition dt_eq :: "datetime \<Rightarrow> datetime \<Rightarrow> bool" where
  "dt_eq a b = (dt_date a = dt_date b \<and> time_eq (dt_time a) (dt_time b))"

definition dt_le :: "datetime \<Rightarrow> datetime \<Rightarrow> bool" where
  "dt_le a b = (dt_less a b \<or> dt_eq a b)"

definition combine :: "date \<Rightarrow> time \<Rightarrow> datetime" where
  "combine d t = \<lparr>dt_date = d, dt_time = t\<rparr>"

text \<open>\<open>dt + timedelta(days=n)\<close>: the time of day stays, the date moves, out of range raises.\<close>

definition add_days :: "datetime \<Rightarrow> int \<Rightarrow> py_error + datetime" where
  "add_days dt n =
     (if 1 \<le> dt_date dt + n \<and> dt_date dt + n \<le> max_ordinal
      then Inr (dt\<lparr>dt_date := dt_date dt + n\<rparr>)
      else Inl OverflowError)"

text \<open>
  \<open>get_ride_datetime(ride_date, ride_time, ride_end_time=None)\<close>.  A \<open>time\<close> object is
  always truthy, so \<open>if ride_end_time\<close> tests for \<open>None\<close> and \<open>ride_time and\<close> is true.
\<close>

definition get_ride_datetime ::
  "date \<Rightarrow> time \<Rightarrow> time option \<Rightarrow> py_error + (datetime \<times> datetime)" where
  "get_ride_datetime ride_date ride_time ride_end_time =
     (let ride_dt_start = combine ride_date ride_time;
          end_time = (case ride_end_time of Some e \<Rightarrow> e | None \<Rightarrow> ride_time);
          ride_dt_end = combine ride_date end_time
      in if ride_end_time \<noteq> None \<and> dt_le ride_dt_end ride_dt_start
         then (case add_days ride_dt_end 1 of
                 Inl e \<Rightarrow> Inl e
               | Inr ride_dt_end' \<Rightarrow> Inr (ride_dt_start, ride_dt_end'))
         else Inr (ride_dt_start, ride_dt_end))"

text \<open>The test every route applies: \<open>ride_dt_end < datetime.now()\<close>.\<close>

definition completed :: "datetime \<Rightarrow> datetime \<Rightarrow> bool" where
  "completed ride_dt_end now = dt_less ride_dt_end now"

definition hm :: "nat \<Rightarrow> nat \<Rightarrow> time" where
  "hm h m = \<lparr>hour = h, minute = m, second = 0, microsecond = 0\<rparr>"


section \<open>The store (app/models.py)\<close>

text \<open>
  The columns that \<open>book_ride\<close> and \<open>cancel_booking\<close> read or write.  A table with an
  integer primary key is a map from the key to the row.  The \<open>booking\<close> table is the list
  of its rows \<open>(ride_id, passenger_id)\<close>; its constraint \<open>_ride_passenger_uc\<close> is
  enforced where a row is inserted (\<open>commit_booking\<close>).  The column
  \<open>rider_gender_preference\<close> is nullable.
\<close>

record user =
  gender :: string

record bike_ride =
  rider_id :: int
  seats_available :: int
  ride_date :: date
  ride_time :: time
  ride_end_time :: "time option"
  rider_gender_preference :: "string option"
  version :: int

record db =
  users :: "int \<rightharpoonup> user"
  rides :: "int \<rightharpoonup> bike_ride"
  bookings :: "(int \<times> int) list"

text \<open>The Flask session: \<open>'user_id' in session\<close> is what \<open>requires_auth\<close> tests.\<close>

record session =
  user_id :: "int option"
  is_rider :: bool

text \<open>
  What a request ends with: the flashed message (named after the spec's taxonomy) and its
  flash category.
  \<^item> \<open>LoginRequired\<close>: "Please log in to access this page." (utils.py, \<open>requires_auth\<close>)
  \<^item> \<open>RidersCannotBook\<close>: "Riders cannot book rides."
  \<^item> \<open>InvalidSessionUser\<close>: "Invalid session user."
  \<^item> \<open>NotFound\<close>: "Ride not found."
  \<^item> \<open>PolicyRejected\<close>: "This ride has a gender preference of ..."
  \<^item> \<open>RideCompleted\<close>: "Ride has already completed." / "Cannot cancel a completed ride."
  \<^item> \<open>AlreadyBooked\<close>: "You have already booked this ride."
  \<^item> \<open>RideFull\<close>: "Ride is full."
  \<^item> \<open>Success\<close>: "Ride booked successfully!"
  \<^item> \<open>CouldNotComplete\<close>: "Could not complete booking due to concurrent updates. Please try again."
  \<^item> \<open>HighContention\<close>: "Unable to book ride at this time due to high contention. Please try again."
  \<^item> \<open>StoreFailure\<close>: "An error occurred during booking." / "An error occurred during cancellation."
  \<^item> \<open>Unhandled e\<close>: the exception \<open>e\<close> leaves the route (no handler catches it)
  \<^item> \<open>RiderRedirect\<close>: \<open>cancel_booking\<close> redirects a rider without a message
  \<^item> \<open>Http404\<close>: \<open>get_or_404\<close> aborts
  \<^item> \<open>Cancelled\<close>: "Booking cancelled."
  \<^item> \<open>BookingNotFound\<close>: "Booking not found."
\<close>

datatype outcome =
    LoginRequired | RidersCannotBook | InvalidSessionUser
  | NotFound | PolicyRejected | RideCompleted | AlreadyBooked | RideFull
  | Success | CouldNotComplete | HighContention | StoreFailure
  | Unhandled py_error
  | RiderRedirect | Http404 | Cancelled | BookingNotFound

datatype flash_category = Error | Info | SuccessCategory | NoFlash

fun category :: "outcome \<Rightarrow> flash_category" where
  "category AlreadyBooked = Info"
| "category Cancelled = Info"
| "category Success = SuccessCategory"
| "category RiderRedirect = NoFlash"
| "category Http404 = NoFlash"
| "category (Unhandled e) = NoFlash"
| "category _ = Error"

section \<open>The environment of a request\<close>

text \<open>
  A request runs next to other requests.  What they and the store do to one attempt is
  an input of the model:
  \<^item> \<open>now\<close>: the value of \<open>datetime.now()\<close> in the attempt;
  \<^item> \<open>before_read\<close>: what other requests commit before the attempt reads the store;
  \<^item> \<open>before_write\<close>: what other requests commit between the attempt's reads and its
    write (the \<open>UPDATE\<close> of \<open>book_ride\<close>, the commit of \<open>cancel_booking\<close>);
  \<^item> \<open>store_fault\<close>: inside the \<open>try\<close> block the store raises an \<open>SQLAlchemyError\<close>
    that is not the \<open>IntegrityError\<close> of the booking's commit;
  \<^item> \<open>integrity_fault\<close>: the commit of the booking raises \<open>IntegrityError\<close> for a reason
    other than the uniqueness of \<open>(ride_id, passenger_id)\<close>.
  The queries of one attempt (lines 39 and 55 of rides.py, 134 and 135) read one state
  of the store; the \<open>UPDATE\<close>, the insert and the commit of lines 72 to 84 are one
  transaction that the store applies at once or not at all.
\<close>

record world =
  now :: datetime
  before_read :: "db \<Rightarrow> db"
  before_write :: "db \<Rightarrow> db"
  store_fault :: bool
  integrity_fault :: bool

section \<open>Booking a seat (app/routes/rides.py, book\_ride)\<close>

definition max_retries :: nat where
  "max_retries = 4"

text \<open>\<open>Booking.query.filter_by(ride_id=..., passenger_id=...).first()\<close>, as a truth value.\<close>

definition find_booking :: "db \<Rightarrow> int \<Rightarrow> int \<Rightarrow> bool" where
  "find_booking d ride_id uid = ((ride_id, uid) \<in> set (bookings d))"

text \<open>
  Lines 39 to 66: the fresh read of the ride and the checks, in the order of the source.
  The result is the early return, or \<open>(old_version, new_seats)\<close>.
\<close>

definition read_phase ::
  "datetime \<Rightarrow> user \<Rightarrow> int \<Rightarrow> int \<Rightarrow> db \<Rightarrow> outcome + (int \<times> int)" where
  "read_phase now_v passenger ride_id uid d =
     (case rides d ride_id of
        None \<Rightarrow> Inl NotFound
      | Some ride \<Rightarrow>
          if rider_gender_preference ride \<noteq> Some ''Any'' \<and>
             Some (gender passenger) \<noteq> rider_gender_preference ride
          then Inl PolicyRejected
          else (case get_ride_datetime (ride_date ride) (ride_time ride) (ride_end_time ride) of
                  Inl e \<Rightarrow> Inl (Unhandled e)
                | Inr (ride_dt_start, ride_dt_end) \<Rightarrow>
                    if dt_less ride_dt_end now_v then Inl RideCompleted
                    else if find_booking d ride_id uid then Inl AlreadyBooked
                    else if seats_available ride \<le> 0 then Inl RideFull
                    else Inr (version ride, seats_available ride - 1)))"

text \<open>
  Lines 69 to 72: \<open>UPDATE bike_ride SET seats_available = new_seats, version = new_version
  WHERE id = ride_id AND version = old_version AND seats_available > 0\<close>; the result is
  the row count and the store.
\<close>

definition conditional_update :: "int \<Rightarrow> int \<Rightarrow> int \<Rightarrow> int \<Rightarrow> db \<Rightarrow> nat \<times> db" where
  "conditional_update ride_id old_version new_seats new_version d =
     (case rides d ride_id of
        None \<Rightarrow> (0, d)
      | Some r \<Rightarrow>
          if version r = old_version \<and> seats_available r > 0
          then (1, d\<lparr>rides := (rides d)(ride_id \<mapsto>
                       r\<lparr>seats_available := new_seats, version := new_version\<rparr>)\<rparr>)
          else (0, d))"

datatype store_error = IntegrityError

text \<open>Lines 81 to 84: the insert of the booking and the commit.\<close>

definition commit_booking :: "bool \<Rightarrow> int \<Rightarrow> int \<Rightarrow> db \<Rightarrow> store_error + db" where
  "commit_booking fault ride_id uid d =
     (if find_booking d ride_id uid \<or> fault then Inl IntegrityError
      else Inr (d\<lparr>bookings := bookings d @ [(ride_id, uid)]\<rparr>))"

text \<open>
  One pass through the body of the \<open>while\<close> loop ends with a \<open>return\<close> or with a
  \<open>continue\<close>; both \<open>continue\<close>s come after \<open>time.sleep(0.08 * attempt)\<close>, kept here in
  milliseconds.
\<close>

datatype attempt_result = Return outcome db | Continue db nat

text \<open>
  Lines 69 to 114, on the store \<open>d\<close> as it is when the \<open>UPDATE\<close> runs.  A rollback gives
  \<open>d\<close> back: the attempt has written nothing else.  The notification and the e-mail of
  lines 101 to 111 do not touch the tables kept here and are left out.
\<close>

definition write_phase ::
  "nat \<Rightarrow> bool \<Rightarrow> int \<Rightarrow> int \<Rightarrow> int \<Rightarrow> int \<Rightarrow> db \<Rightarrow> attempt_result" where
  "write_phase attempt fault ride_id uid old_version new_seats d =
     (let new_version = old_version + 1;
          (rowcount, d_u) = conditional_update ride_id old_version new_seats new_version d
      in if rowcount = 0 then Continue d (80 * attempt)
         else (case commit_booking fault ride_id uid d_u of
                 Inr d_c \<Rightarrow> Return Success d_c
               | Inl IntegrityError \<Rightarrow>
                   if find_booking d ride_id uid then Return AlreadyBooked d
                   else if attempt \<ge> max_retries then Return CouldNotComplete d
                   else Continue d (80 * attempt)))"

definition book_attempt ::
  "nat \<Rightarrow> world \<Rightarrow> user \<Rightarrow> int \<Rightarrow> int \<Rightarrow> db \<Rightarrow> attempt_result" where
  "book_attempt attempt w passenger ride_id uid d0 =
     (let d = before_read w d0
      in if store_fault w then Return StoreFailure d
         else (case read_phase (now w) passenger ride_id uid d of
                 Inl out \<Rightarrow> Return out d
               | Inr (old_version, new_seats) \<Rightarrow>
                   write_phase attempt (integrity_fault w) ride_id uid old_version new_seats
                     (before_write w d)))"

record result =
  outcome_of :: outcome
  store :: db
  slept :: "nat list"
  attempts :: nat

function book_loop ::
  "nat \<Rightarrow> (nat \<Rightarrow> world) \<Rightarrow> user \<Rightarrow> int \<Rightarrow> int \<Rightarrow> db \<Rightarrow> nat list \<Rightarrow> result" where
  "book_loop attempt env passenger ride_id uid d sl =
     (if attempt < max_retries
      then (case book_attempt (attempt + 1) (env (attempt + 1)) passenger ride_id uid d of
              Return out d' \<Rightarrow>
                \<lparr>outcome_of = out, store = d', slept = sl, attempts = attempt + 1\<rparr>
            | Continue d' ms \<Rightarrow>
                book_loop (attempt + 1) env passenger ride_id uid d' (sl @ [ms]))
      else \<lparr>outcome_of = HighContention, store = d, slept = sl, attempts = attempt\<rparr>)"
  by pat_completeness auto
termination
  by (relation "measure (\<lambda>(attempt, env, passenger, ride_id, uid, d, sl). max_retries - attempt)")
     auto

definition book_ride :: "(nat \<Rightarrow> world) \<Rightarrow> session \<Rightarrow> int \<Rightarrow> db \<Rightarrow> result" where
  "book_ride env ses ride_id d =
     (case user_id ses of
        None \<Rightarrow> \<lparr>outcome_of = LoginRequired, store = d, slept = [], attempts = 0\<rparr>
      | Some uid \<Rightarrow>
          if is_rider ses
          then \<lparr>outcome_of = RidersCannotBook, store = d, slept = [], attempts = 0\<rparr>
          else (case users d uid of
                  None \<Rightarrow> \<lparr>outcome_of = InvalidSessionUser, store = d, slept = [], attempts = 0\<rparr>
                | Some passenger \<Rightarrow> book_loop 0 env passenger ride_id uid d []))"

section \<open>Cancelling a booking (app/routes/rides.py, cancel\_booking)\<close>

text \<open>
  The ride and the booking are read first; the commit of line 149 deletes the booking row
  and writes \<open>seats_available\<close> and \<open>version\<close> as computed from the values that were read
  (\<open>UPDATE bike_ride SET seats_available = ..., version = ... WHERE id = ride_id\<close>), on the
  store as it is then.  An \<open>UPDATE\<close> that finds no row is an \<open>SQLAlchemyError\<close>.
\<close>

definition cancel_booking :: "world \<Rightarrow> session \<Rightarrow> int \<Rightarrow> db \<Rightarrow> outcome \<times> db" where
  "cancel_booking w ses ride_id d =
     (case user_id ses of
        None \<Rightarrow> (LoginRequired, d)
      | Some uid \<Rightarrow>
          if is_rider ses then (RiderRedirect, d)
          else (case rides d ride_id of
                  None \<Rightarrow> (Http404, d)
                | Some ride \<Rightarrow>
                    let booking = find_booking d ride_id uid
                    in (case get_ride_datetime (ride_date ride) (ride_time ride) (ride_end_time ride) of
                          Inl e \<Rightarrow> (Unhandled e, d)
                        | Inr (ride_dt_start, ride_dt_end) \<Rightarrow>
                            if dt_less ride_dt_end (now w) then (RideCompleted, d)
                            else if booking
                            then (let d_c = before_write w d
                                  in case rides d_c ride_id of
                                       None \<Rightarrow> (StoreFailure, d_c)
                                     | Some cur \<Rightarrow>
                                         if store_fault w then (StoreFailure, d_c)
                                         else (Cancelled,
                                           d_c\<lparr>bookings := remove1 (ride_id, uid) (bookings d_c),
                                               rides := (rides d_c)(ride_id \<mapsto>
                                                 cur\<lparr>seats_available := seats_available ride + 1,
                                                     version := version ride + 1\<rparr>)\<rparr>))
                            else (BookingNotFound, d))))"

text \<open>An environment in which no other request commits and the store does not fail.\<close>

definition quiet :: "datetime \<Rightarrow> world" where
  "quiet t = \<lparr>now = t, before_read = (\<lambda>d. d), before_write = (\<lambda>d. d),
              store_fault = False, integrity_fault = False\<rparr>"

section \<open>Concurrent booking requests\<close>

text \<open>
  Several requests run \<open>book_ride\<close> on one store.  A request that has passed the session
  checks of lines 22 to 30 holds the passenger row it read and is at one of three places:
  before an attempt (\<open>Idle attempt\<close>, with the attempts made so far), between the reads
  and the \<open>UPDATE\<close> of an attempt (\<open>Pending attempt old_version new_seats\<close>), or finished.
  A step of a request is its read phase or its write phase, on the store as the other
  requests have left it; of the environment of the step only the clock and the faults of
  the store are used.
\<close>

datatype pc = Idle nat | Pending nat int int | Done outcome

record request =
  req_passenger :: user
  req_uid :: int
  req_ride :: int
  req_pc :: pc

definition request_step :: "world \<Rightarrow> request \<Rightarrow> db \<Rightarrow> request \<times> db" where
  "request_step w q d =
     (case req_pc q of
        Idle attempt \<Rightarrow>
          if attempt < max_retries
          then (if store_fault w then (q\<lparr>req_pc := Done StoreFailure\<rparr>, d)
                else (case read_phase (now w) (req_passenger q) (req_ride q) (req_uid q) d of
                        Inl out \<Rightarrow> (q\<lparr>req_pc := Done out\<rparr>, d)
                      | Inr (old_version, new_seats) \<Rightarrow>
                          (q\<lparr>req_pc := Pending (attempt + 1) old_version new_seats\<rparr>, d)))
          else (q\<lparr>req_pc := Done HighContention\<rparr>, d)
      | Pending attempt old_version new_seats \<Rightarrow>
          (case write_phase attempt (integrity_fault w) (req_ride q) (req_uid q)
                  old_version new_seats d of
             Return out d' \<Rightarrow> (q\<lparr>req_pc := Done out\<rparr>, d')
           | Continue d' ms \<Rightarrow> (q\<lparr>req_pc := Idle attempt\<rparr>, d'))
      | Done out \<Rightarrow> (q, d))"

inductive step :: "db \<times> request list \<Rightarrow> db \<times> request list \<Rightarrow> bool" where
  run: "i < length qs \<Longrightarrow> request_step w (qs ! i) d = (q', d') \<Longrightarrow>
        step (d, qs) (d', qs[i := q'])"

text \<open>The requests on ride \<open>r\<close> that have booked a seat.\<close>

definition successes :: "int \<Rightarrow> request list \<Rightarrow> nat" where
  "successes r qs = length (filter (\<lambda>q. req_ride q = r \<and> req_pc q = Done Success) qs)"

section \<open>Sample data\<close>

definition sample_ride :: bike_ride where
  "sample_ride = \<lparr>rider_id = 1, seats_available = 1, ride_date = 739000,
     ride_time = hm 23 0, ride_end_time = Some (hm 1 0),
     rider_gender_preference = Some ''Any'', version = 1\<rparr>"

definition sample_db :: db where
  "sample_db = \<lparr>users = [7 \<mapsto> \<lparr>gender = ''Female''\<rparr>, 8 \<mapsto> \<lparr>gender = ''Male''\<rparr>],
     rides = [1 \<mapsto> sample_ride], bookings = []\<rparr>"

definition passenger_session :: "int \<Rightarrow> session" where
  "passenger_session uid = \<lparr>user_id = Some uid, is_rider = False\<rparr>"

text \<open>The clock reads 10:00 on the day of the sample ride, or 10:00 two days later.\<close>

definition morning :: datetime where
  "morning = combine 739000 (hm 10 0)"

definition two_days_later :: datetime where
  "two_days_later = combine 739002 (hm 10 0)"
text \<open>A second seat on the sample ride; the store after passenger 7 has booked the only seat.\<close>

definition two_seat_db :: db where
  "two_seat_db = sample_db\<lparr>rides := [1 \<mapsto> sample_ride\<lparr>seats_available := 2\<rparr>]\<rparr>"

definition full_db :: db where
  "full_db = sample_db\<lparr>rides := [1 \<mapsto> sample_ride\<lparr>seats_available := 0, version := 2\<rparr>],
                       bookings := [(1, 7)]\<rparr>"

text \<open>
  Three environments with another writer: passenger 8 books ride 1 between the reads and
  the write of the request; some writer bumps the version of ride 1 between the reads and
  the \<open>UPDATE\<close> of every attempt; a booking of passenger 7 on ride 1 is inserted between the
  reads and the \<open>UPDATE\<close> and leaves the ride's row alone.
\<close>

definition racing_booking :: world where
  "racing_booking = \<lparr>now = morning, before_read = (\<lambda>d. d),
     before_write = (\<lambda>d. store (book_ride (\<lambda>k. quiet morning) (passenger_session 8) 1 d)),
     store_fault = False, integrity_fault = False\<rparr>"

definition contended :: "nat \<Rightarrow> world" where
  "contended k = \<lparr>now = morning, before_read = (\<lambda>d. d),
     before_write = (\<lambda>d. d\<lparr>rides := [1 \<mapsto> sample_ride\<lparr>version := 100 + int k\<rparr>]\<rparr>),
     store_fault = False, integrity_fault = False\<rparr>"

definition racing_duplicate :: world where
  "racing_duplicate = \<lparr>now = morning, before_read = (\<lambda>d. d),
     before_write = (\<lambda>d. d\<lparr>bookings := bookings d @ [(1, 7)]\<rparr>),
     store_fault = False, integrity_fault = False\<rparr>"

text \<open>
  Two requests for the one seat of the sample ride, and the state after both have read,
  passenger 7 has written and passenger 8 has found the version changed.
\<close>

definition sample_requests :: "request list" where
  "sample_requests =
     [\<lparr>req_passenger = \<lparr>gender = ''Female''\<rparr>, req_uid = 7, req_ride = 1, req_pc = Idle 0\<rparr>,
      \<lparr>req_passenger = \<lparr>gender = ''Male''\<rparr>, req_uid = 8, req_ride = 1, req_pc = Idle 0\<rparr>]"

definition sample_final :: "db \<times> request list" where
  "sample_final =
     (full_db,
      [\<lparr>req_passenger = \<lparr>gender = ''Female''\<rparr>, req_uid = 7, req_ride = 1,
          req_pc = Done Success\<rparr>,
       \<lparr>req_passenger = \<lparr>gender = ''Male''\<rparr>, req_uid = 8, req_ride = 1, req_pc = Idle 1\<rparr>])"

section \<open>Notions of the proofs\<close>

text \<open>The store after \<open>uid\<close> has booked a seat on the ride \<open>rid\<close>, whose row was \<open>ride\<close>.\<close>

definition booked :: "int \<Rightarrow> int \<Rightarrow> bike_ride \<Rightarrow> db \<Rightarrow> db" where
  "booked rid uid ride d =
     d\<lparr>rides := (rides d)(rid \<mapsto> ride\<lparr>seats_available := seats_available ride - 1,
                                         version := version ride + 1\<rparr>),
       bookings := bookings d @ [(rid, uid)]\<rparr>"

text \<open>
  The invariant of concurrent bookings of ride \<open>r\<close> that started with \<open>n0\<close> seats: the seats
  left and the requests that booked add up to \<open>n0\<close>, seats and version add up to a constant
  \<open>c\<close>, and what a request between its reads and its write holds was read from such a row.
\<close>

definition seat_invariant :: "int \<Rightarrow> int \<Rightarrow> int \<Rightarrow> db \<times> request list \<Rightarrow> bool" where
  "seat_invariant r n0 c st =
     (case st of (d, qs) \<Rightarrow>
        (\<exists>ride. rides d r = Some ride \<and> 0 \<le> seats_available ride
           \<and> int (successes r qs) + seats_available ride = n0
           \<and> seats_available ride + version ride = c
           \<and> (\<forall>q \<in> set qs. req_ride q = r \<longrightarrow>
                 (\<forall>k v s. req_pc q = Pending k v s \<longrightarrow> v + s + 1 = c))))"

section \<open>Facts shared by the properties\<close>

lemmas time_defs = combine_def dt_le_def dt_less_def dt_eq_def time_less_def time_eq_def
  hm_def add_days_def max_ordinal_def completed_def

lemmas sample_defs = sample_ride_def sample_db_def passenger_session_def morning_def
  two_days_later_def quiet_def

lemmas route_defs = book_ride_def book_attempt_def read_phase_def write_phase_def
  conditional_update_def commit_booking_def find_booking_def get_ride_datetime_def
  max_retries_def cancel_booking_def

lemmas eval_defs = route_defs sample_defs time_defs full_db_def

lemmas sys_defs = request_step_def sample_requests_def sample_final_def successes_def

subsection \<open>The active window\<close>

lemma get_ride_datetime_no_end:
  "get_ride_datetime dd st None = Inr (combine dd st, combine dd st)"
  by (simp add: get_ride_datetime_def)

lemma get_ride_datetime_overnight:
  "1 \<le> dd \<Longrightarrow> dd < max_ordinal \<Longrightarrow> dt_le (combine dd e) (combine dd st) \<Longrightarrow>
   get_ride_datetime dd st (Some e) = Inr (combine dd st, combine (dd + 1) e)"
  by (simp add: get_ride_datetime_def add_days_def combine_def)

lemma get_ride_datetime_same_day:
  "\<not> dt_le (combine dd e) (combine dd st) \<Longrightarrow>
   get_ride_datetime dd st (Some e) = Inr (combine dd st, combine dd e)"
  by (simp add: get_ride_datetime_def)

subsection \<open>One attempt\<close>

lemma read_phase_Inr:
  assumes "read_phase t p rid uid d = Inr (v, s)"
  shows "\<exists>ride. rides d rid = Some ride \<and> v = version ride
           \<and> s = seats_available ride - 1 \<and> 0 < seats_available ride
           \<and> \<not> find_booking d rid uid"
  using assms
  by (auto simp: read_phase_def split: option.splits if_splits sum.splits prod.splits)

lemma read_phase_Inl:
  assumes "read_phase t p rid uid d = Inl out"
  shows "out \<noteq> Success \<and> out \<noteq> HighContention"
  using assms
  by (auto simp: read_phase_def split: option.splits if_splits sum.splits prod.splits)

lemma conditional_update_bookings:
  "conditional_update rid v s nv d = (n, d') \<Longrightarrow> bookings d' = bookings d"
  by (auto simp: conditional_update_def split: option.splits if_splits)

lemma write_phase_cases:
  "write_phase k f rid uid v s d = res \<Longrightarrow>
     res = Continue d (80 * k) \<or> res = Return AlreadyBooked d \<or> res = Return CouldNotComplete d
     \<or> (\<exists>ride. rides d rid = Some ride \<and> version ride = v \<and> 0 < seats_available ride
          \<and> \<not> find_booking d rid uid
          \<and> res = Return Success
               (d\<lparr>rides := (rides d)(rid \<mapsto> ride\<lparr>seats_available := s, version := v + 1\<rparr>),
                  bookings := bookings d @ [(rid, uid)]\<rparr>))"
  by (auto simp: write_phase_def conditional_update_def commit_booking_def find_booking_def
      split: option.splits if_splits)

lemma write_phase_mismatch:
  "fst (conditional_update rid v s (v + 1) d) = 0 \<Longrightarrow>
   write_phase k f rid uid v s d = Continue d (80 * k)"
  by (auto simp: write_phase_def split: prod.splits)

lemma book_attempt_Continue:
  "book_attempt k w p rid uid d = Continue d' ms \<Longrightarrow> ms = 80 * k"
  by (auto simp: book_attempt_def write_phase_def Let_def
      split: sum.splits prod.splits if_splits store_error.splits)

lemma book_attempt_Return:
  "book_attempt k w p rid uid d = Return out d' \<Longrightarrow> out \<noteq> HighContention"
  by (auto simp: book_attempt_def write_phase_def Let_def dest: read_phase_Inl
      split: sum.splits prod.splits if_splits store_error.splits)

lemma book_attempt_calm:
  assumes "before_read w = (\<lambda>d. d)" "before_write w = (\<lambda>d. d)"
    and "book_attempt k w p rid uid d = res"
  shows "(\<exists>ms. res = Continue d ms)
      \<or> (\<exists>out. res = Return out d \<and> out \<noteq> Success)
      \<or> (\<exists>ride s e. rides d rid = Some ride
            \<and> \<not> (rider_gender_preference ride \<noteq> Some ''Any'' \<and>
                  Some (gender p) \<noteq> rider_gender_preference ride)
            \<and> get_ride_datetime (ride_date ride) (ride_time ride) (ride_end_time ride) = Inr (s, e)
            \<and> 0 < seats_available ride \<and> \<not> find_booking d rid uid
            \<and> res = Return Success (booked rid uid ride d))"
  using assms
  by (auto simp: book_attempt_def read_phase_def write_phase_def conditional_update_def
      commit_booking_def booked_def split: option.splits if_splits sum.splits prod.splits)

subsection \<open>The retry loop\<close>

lemma book_loop_Return:
  "k < max_retries \<Longrightarrow> book_attempt (k + 1) (env (k + 1)) p rid uid d = Return out d' \<Longrightarrow>
   book_loop k env p rid uid d sl = \<lparr>outcome_of = out, store = d', slept = sl, attempts = k + 1\<rparr>"
  by (subst book_loop.simps) simp

lemma book_loop_calm:
  "\<forall>k. before_read (env k) = (\<lambda>d. d) \<and> before_write (env k) = (\<lambda>d. d) \<Longrightarrow>
   (outcome_of (book_loop k env p rid uid d sl) \<noteq> Success
            \<and> store (book_loop k env p rid uid d sl) = d)
      \<or> (\<exists>ride s e. rides d rid = Some ride
            \<and> \<not> (rider_gender_preference ride \<noteq> Some ''Any'' \<and>
                  Some (gender p) \<noteq> rider_gender_preference ride)
            \<and> get_ride_datetime (ride_date ride) (ride_time ride) (ride_end_time ride) = Inr (s, e)
            \<and> 0 < seats_available ride \<and> \<not> find_booking d rid uid
            \<and> outcome_of (book_loop k env p rid uid d sl) = Success
            \<and> store (book_loop k env p rid uid d sl) = booked rid uid ride d)"
proof (induction k env p rid uid d sl rule: book_loop.induct)
  case (1 attempt env passenger ride_id uid d sl)
  let ?a = "book_attempt (attempt + 1) (env (attempt + 1)) passenger ride_id uid d"
  show ?case
  proof (cases "attempt < max_retries")
    case False
    then show ?thesis by (subst (1 2) book_loop.simps) simp
  next
    case True
    from "1.prems" have c: "before_read (env (attempt + 1)) = (\<lambda>d. d)"
      "before_write (env (attempt + 1)) = (\<lambda>d. d)" by auto
    from book_attempt_calm [OF c refl, of "attempt + 1" passenger ride_id uid d]
    consider (cont) ms where "?a = Continue d ms"
      | (ret) out where "?a = Return out d" "out \<noteq> Success"
      | (ok) ride s e where "rides d ride_id = Some ride"
          "\<not> (rider_gender_preference ride \<noteq> Some ''Any'' \<and>
                  Some (gender passenger) \<noteq> rider_gender_preference ride)"
          "get_ride_datetime (ride_date ride) (ride_time ride) (ride_end_time ride) = Inr (s, e)"
          "0 < seats_available ride" "\<not> find_booking d ride_id uid"
          "?a = Return Success (booked ride_id uid ride d)"
      by blast
    then show ?thesis
    proof cases
      case cont
      from "1.IH" [OF True cont "1.prems"] show ?thesis
        using True cont by (subst (1 2 3 4) book_loop.simps) simp
    next
      case ret
      then show ?thesis using True by (subst (1 2) book_loop.simps) simp
    next
      case ok
      then show ?thesis using True by (subst (1 2 3 4) book_loop.simps) auto
    qed
  qed
qed

lemma book_ride_calm:
  assumes calm: "\<forall>k. before_read (env k) = (\<lambda>d. d) \<and> before_write (env k) = (\<lambda>d. d)"
    and ok: "outcome_of (book_ride env ses rid d) = Success"
  shows "\<exists>uid p ride s e. user_id ses = Some uid \<and> \<not> is_rider ses \<and> users d uid = Some p
           \<and> rides d rid = Some ride
           \<and> \<not> (rider_gender_preference ride \<noteq> Some ''Any'' \<and>
                 Some (gender p) \<noteq> rider_gender_preference ride)
           \<and> get_ride_datetime (ride_date ride) (ride_time ride) (ride_end_time ride) = Inr (s, e)
           \<and> 0 < seats_available ride \<and> \<not> find_booking d rid uid
           \<and> store (book_ride env ses rid d) = booked rid uid ride d"
proof -
  from ok obtain uid p where u: "user_id ses = Some uid" "\<not> is_rider ses" "users d uid = Some p"
    and eq: "book_ride env ses rid d = book_loop 0 env p rid uid d []"
    by (auto simp: book_ride_def split: option.splits if_splits)
  from book_loop_calm [OF calm, of 0 p rid uid d "[]"] ok eq u show ?thesis
    by auto
qed

lemma book_loop_trace:
  "k \<le> max_retries \<Longrightarrow>
   \<exists>n. slept (book_loop k env p rid uid d sl) = sl @ map (\<lambda>j. 80 * j) [k + 1 ..< k + 1 + n]
     \<and> ((outcome_of (book_loop k env p rid uid d sl) = HighContention
           \<and> attempts (book_loop k env p rid uid d sl) = max_retries \<and> k + n = max_retries)
        \<or> (outcome_of (book_loop k env p rid uid d sl) \<noteq> HighContention
           \<and> attempts (book_loop k env p rid uid d sl) = k + n + 1 \<and> k + n < max_retries))"
proof (induction k env p rid uid d sl rule: book_loop.induct)
  case (1 attempt env passenger ride_id uid d sl)
  let ?a = "book_attempt (attempt + 1) (env (attempt + 1)) passenger ride_id uid d"
  show ?case
  proof (cases "attempt < max_retries")
    case False
    with "1.prems" have e: "attempt = max_retries" by simp
    have "book_loop attempt env passenger ride_id uid d sl
        = \<lparr>outcome_of = HighContention, store = d, slept = sl, attempts = attempt\<rparr>"
      using False by (subst book_loop.simps) simp
    then show ?thesis using e by (intro exI [of _ 0]) simp
  next
    case True
    show ?thesis
    proof (cases ?a)
      case (Return out d')
      have "book_loop attempt env passenger ride_id uid d sl
        = \<lparr>outcome_of = out, store = d', slept = sl, attempts = attempt + 1\<rparr>"
        using True Return by (subst book_loop.simps) simp
      then show ?thesis
        using True book_attempt_Return [OF Return] by (intro exI [of _ 0]) simp
    next
      case (Continue d' ms)
      have ms: "ms = 80 * (attempt + 1)" by (rule book_attempt_Continue [OF Continue])
      have eq: "book_loop attempt env passenger ride_id uid d sl
          = book_loop (attempt + 1) env passenger ride_id uid d' (sl @ [ms])"
        using True Continue by (subst book_loop.simps) simp
      from True have "attempt + 1 \<le> max_retries" by simp
      from "1.IH" [OF True Continue this] obtain n where
        n: "slept (book_loop (attempt + 1) env passenger ride_id uid d' (sl @ [ms]))
              = (sl @ [ms]) @ map (\<lambda>j. 80 * j) [attempt + 1 + 1 ..< attempt + 1 + 1 + n]"
        "(outcome_of (book_loop (attempt + 1) env passenger ride_id uid d' (sl @ [ms])) = HighContention
           \<and> attempts (book_loop (attempt + 1) env passenger ride_id uid d' (sl @ [ms])) = max_retries
           \<and> attempt + 1 + n = max_retries)
        \<or> (outcome_of (book_loop (attempt + 1) env passenger ride_id uid d' (sl @ [ms])) \<noteq> HighContention
           \<and> attempts (book_loop (attempt + 1) env passenger ride_id uid d' (sl @ [ms])) = attempt + 1 + n + 1
           \<and> attempt + 1 + n < max_retries)"
        by blast
      have "[attempt + 1 ..< attempt + 1 + (n + 1)] = (attempt + 1) # [attempt + 1 + 1 ..< attempt + 1 + 1 + n]"
        by (simp add: upt_conv_Cons)
      then have "slept (book_loop attempt env passenger ride_id uid d sl)
          = sl @ map (\<lambda>j. 80 * j) [attempt + 1 ..< attempt + 1 + (n + 1)]"
        using n(1) ms eq by simp
      then show ?thesis
        using n(2) eq by (intro exI [of _ "n + 1"]) auto
    qed
  qed
qed

subsection \<open>Cancellation\<close>

lemma cancel_only_with_booking:
  "fst (cancel_booking w ses rid d) = Cancelled \<Longrightarrow>
   \<exists>uid ride s e. user_id ses = Some uid \<and> \<not> is_rider ses \<and> rides d rid = Some ride
     \<and> get_ride_datetime (ride_date ride) (ride_time ride) (ride_end_time ride) = Inr (s, e)
     \<and> \<not> completed e (now w) \<and> find_booking d rid uid"
  by (auto simp: cancel_booking_def completed_def Let_def
      split: option.splits if_splits sum.splits prod.splits)

subsection \<open>Steps of concurrent requests\<close>

text \<open>
  The two steps of a request, with what others commit in between, are one pass through
  the body of the loop of \<open>book_ride\<close>.
\<close>

lemma attempt_is_two_steps:
  assumes "\<not> store_fault w" and "k < max_retries"
    and "q = \<lparr>req_passenger = p, req_uid = uid, req_ride = rid, req_pc = Idle k\<rparr>"
    and "d = before_read w d0"
  shows "(\<forall>out. read_phase (now w) p rid uid d = Inl out \<longrightarrow>
            request_step w q d = (q\<lparr>req_pc := Done out\<rparr>, d)
            \<and> book_attempt (k + 1) w p rid uid d0 = Return out d)
       \<and> (\<forall>v s. read_phase (now w) p rid uid d = Inr (v, s) \<longrightarrow>
            request_step w q d = (q\<lparr>req_pc := Pending (k + 1) v s\<rparr>, d)
            \<and> request_step w (q\<lparr>req_pc := Pending (k + 1) v s\<rparr>) (before_write w d)
                = (case book_attempt (k + 1) w p rid uid d0 of
                     Return out d' \<Rightarrow> (q\<lparr>req_pc := Done out\<rparr>, d')
                   | Continue d' ms \<Rightarrow> (q\<lparr>req_pc := Idle (k + 1)\<rparr>, d')))"
  using assms by (auto simp: request_step_def book_attempt_def split: attempt_result.splits)

lemma successes_update:
  "i < length qs \<Longrightarrow>
   (if P (qs ! i) then 1 else 0) + length (filter P (qs[i := q]))
     = (if P q then 1 else 0) + length (filter P qs)"
proof (induction qs arbitrary: i)
  case Nil
  then show ?case by simp
next
  case (Cons a qs)
  then show ?case by (cases i) auto
qed

lemma request_step_cases:
  assumes "request_step w q d = (q', d')"
  shows "(d' = d \<and> req_ride q' = req_ride q \<and> req_pc q' \<noteq> Done Success
            \<and> req_pc q \<noteq> Done Success
            \<and> (\<forall>k v s. req_pc q' = Pending k v s \<longrightarrow>
                  (\<exists>ride. rides d (req_ride q) = Some ride \<and> v = version ride
                     \<and> s = seats_available ride - 1 \<and> 0 < seats_available ride)))
       \<or> (d' = d \<and> q' = q)
       \<or> (\<exists>k v s ride. req_pc q = Pending k v s \<and> rides d (req_ride q) = Some ride
            \<and> version ride = v \<and> 0 < seats_available ride
            \<and> q' = q\<lparr>req_pc := Done Success\<rparr>
            \<and> d' = d\<lparr>rides := (rides d)(req_ride q \<mapsto>
                           ride\<lparr>seats_available := s, version := v + 1\<rparr>),
                      bookings := bookings d @ [(req_ride q, req_uid q)]\<rparr>)"
proof (cases "req_pc q")
  case (Idle n)
  show ?thesis
  proof (cases "read_phase (now w) (req_passenger q) (req_ride q) (req_uid q) d")
    case (Inl out)
    with Idle assms read_phase_Inl [OF Inl] show ?thesis
      by (auto simp: request_step_def split: if_splits)
  next
    case (Inr vs)
    obtain v s where vs: "vs = (v, s)" by (cases vs)
    from read_phase_Inr [OF Inr [unfolded vs]] Idle assms Inr vs show ?thesis
      by (auto simp: request_step_def split: if_splits)
  qed
next
  case (Pending k v s)
  from write_phase_cases [OF refl, of k "integrity_fault w" "req_ride q" "req_uid q" v s d]
  show ?thesis using Pending assms
    by (auto simp: request_step_def)
next
  case (Done out)
  with assms show ?thesis by (auto simp: request_step_def)
qed

lemma step_preserves_invariant:
  assumes st: "step (d, qs) (d', qs')" and inv: "seat_invariant r n0 c (d, qs)"
  shows "seat_invariant r n0 c (d', qs')"
proof -
  from st obtain i w q' where i: "i < length qs" and rs: "request_step w (qs ! i) d = (q', d')"
    and qs': "qs' = qs[i := q']"
    by (auto elim: step.cases)
  from inv obtain ride where ride: "rides d r = Some ride" and nn: "0 \<le> seats_available ride"
    and cnt: "int (successes r qs) + seats_available ride = n0"
    and sv: "seats_available ride + version ride = c"
    and pend: "\<forall>q \<in> set qs. req_ride q = r \<longrightarrow>
                 (\<forall>k v s. req_pc q = Pending k v s \<longrightarrow> v + s + 1 = c)"
    by (auto simp: seat_invariant_def)
  let ?P = "\<lambda>q. req_ride q = r \<and> req_pc q = Done Success"
  have upd: "(if ?P (qs ! i) then 1 else 0) + successes r qs'
               = (if ?P q' then 1 else 0) + successes r qs"
    unfolding successes_def qs' by (rule successes_update [OF i])
  have mem: "qs ! i \<in> set qs" using i by simp
  have sub: "set qs' \<subseteq> insert q' (set qs)" unfolding qs' by (rule set_update_subset_insert)
  from request_step_cases [OF rs]
  consider (silent) "d' = d" "req_ride q' = req_ride (qs ! i)" "req_pc q' \<noteq> Done Success"
      "req_pc (qs ! i) \<noteq> Done Success"
      "\<forall>k v s. req_pc q' = Pending k v s \<longrightarrow>
          (\<exists>ride. rides d (req_ride (qs ! i)) = Some ride \<and> v = version ride
             \<and> s = seats_available ride - 1 \<and> 0 < seats_available ride)"
    | (same) "d' = d" "q' = qs ! i"
    | (wrote) k v s rd where "req_pc (qs ! i) = Pending k v s"
        "rides d (req_ride (qs ! i)) = Some rd" "version rd = v" "0 < seats_available rd"
        "q' = (qs ! i)\<lparr>req_pc := Done Success\<rparr>"
        "d' = d\<lparr>rides := (rides d)(req_ride (qs ! i) \<mapsto>
                           rd\<lparr>seats_available := s, version := v + 1\<rparr>),
                      bookings := bookings d @ [(req_ride (qs ! i), req_uid (qs ! i))]\<rparr>"
    by blast
  then show ?thesis
  proof cases
    case silent
    from upd silent have s: "successes r qs' = successes r qs" by simp
    have "\<forall>q \<in> set qs'. req_ride q = r \<longrightarrow>
                 (\<forall>k v s. req_pc q = Pending k v s \<longrightarrow> v + s + 1 = c)"
    proof (intro ballI impI allI)
      fix q k v s assume q: "q \<in> set qs'" "req_ride q = r" "req_pc q = Pending k v s"
      show "v + s + 1 = c"
      proof (cases "q = q'")
        case True
        with q silent ride sv show ?thesis by auto
      next
        case False
        with q sub pend show ?thesis by blast
      qed
    qed
    with ride nn cnt sv s silent(1) show ?thesis by (auto simp: seat_invariant_def)
  next
    case same
    then have "qs' = qs" unfolding qs' by simp
    with inv same show ?thesis by simp
  next
    case wrote
    show ?thesis
    proof (cases "req_ride (qs ! i) = r")
      case False
      with wrote have r': "rides d' r = rides d r" by simp
      from False wrote upd have s: "successes r qs' = successes r qs" by simp
      have "\<forall>q \<in> set qs'. req_ride q = r \<longrightarrow>
                 (\<forall>k v s. req_pc q = Pending k v s \<longrightarrow> v + s + 1 = c)"
        using sub pend wrote(5) by auto
      with ride nn cnt sv s r' show ?thesis by (auto simp: seat_invariant_def)
    next
      case True
      with wrote ride have rd: "rd = ride" by simp
      from pend mem True wrote(1) have vs: "v + s + 1 = c" by blast
      with sv wrote(3) rd have s: "s = seats_available ride - 1" by simp
      from True wrote upd have su: "successes r qs' = successes r qs + 1" by simp
      have r': "rides d' r = Some (ride\<lparr>seats_available := s, version := v + 1\<rparr>)"
        using wrote(6) True rd by simp
      have "\<forall>q \<in> set qs'. req_ride q = r \<longrightarrow>
                 (\<forall>k v s. req_pc q = Pending k v s \<longrightarrow> v + s + 1 = c)"
        using sub pend wrote(5) by auto
      with r' s su cnt vs wrote(4) rd show ?thesis by (auto simp: seat_invariant_def)
    qed
  qed
qed

lemma reachable_invariant:
  assumes "step\<^sup>*\<^sup>* st st'" and "seat_invariant r n0 c st"
  shows "seat_invariant r n0 c st'"
  using assms
proof (induction rule: rtranclp_induct)
  case base
  then show ?case .
next
  case (step y z)
  obtain d qs where y: "y = (d, qs)" by (cases y)
  obtain d' qs' where z: "z = (d', qs')" by (cases z)
  from step show ?case using step_preserves_invariant [of d qs d' qs' r n0 c] y z by simp
qed

lemma initial_invariant:
  assumes "rides d0 r = Some ride0" "0 \<le> seats_available ride0"
    and "\<forall>q \<in> set qs0. req_pc q = Idle 0"
  shows "seat_invariant r (seats_available ride0) (seats_available ride0 + version ride0) (d0, qs0)"
proof -
  have "filter (\<lambda>q. req_ride q = r \<and> req_pc q = Done Success) qs0 = []"
    using assms(3) by (auto simp: filter_empty_conv)
  then have "successes r qs0 = 0" by (simp add: successes_def)
  with assms show ?thesis by (auto simp: seat_invariant_def)
qed

subsection \<open>Runs on the sample data\<close>

lemma first_booking:
  "book_ride (\<lambda>k. quiet morning) (passenger_session 7) 1 sample_db
     = \<lparr>outcome_of = Success, store = full_db, slept = [], attempts = 1\<rparr>"
  by (simp add: eval_defs)

lemma contended_run:
  "book_ride contended (passenger_session 7) 1 sample_db
     = \<lparr>outcome_of = HighContention,
        store = sample_db\<lparr>rides := [1 \<mapsto> sample_ride\<lparr>version := 104\<rparr>]\<rparr>,
        slept = [80, 160, 240, 320], attempts = 4\<rparr>"
  by (simp add: eval_defs contended_def)

lemma sample_run: "step\<^sup>*\<^sup>* (sample_db, sample_requests) sample_final"
proof -
  let ?q7 = "\<lambda>pc. \<lparr>req_passenger = \<lparr>gender = ''Female''\<rparr>, req_uid = 7, req_ride = 1, req_pc = pc\<rparr>"
  let ?q8 = "\<lambda>pc. \<lparr>req_passenger = \<lparr>gender = ''Male''\<rparr>, req_uid = 8, req_ride = 1, req_pc = pc\<rparr>"
  have s1: "step (sample_db, [?q7 (Idle 0), ?q8 (Idle 0)])
                 (sample_db, [?q7 (Idle 0), ?q8 (Idle 0)][0 := ?q7 (Pending 1 1 0)])"
    by (rule step.run [where w = "quiet morning"]) (simp_all add: sys_defs eval_defs)
  have s2: "step (sample_db, [?q7 (Pending 1 1 0), ?q8 (Idle 0)])
                 (sample_db, [?q7 (Pending 1 1 0), ?q8 (Idle 0)][1 := ?q8 (Pending 1 1 0)])"
    by (rule step.run [where w = "quiet morning"]) (simp_all add: sys_defs eval_defs)
  have s3: "step (sample_db, [?q7 (Pending 1 1 0), ?q8 (Pending 1 1 0)])
                 (full_db, [?q7 (Pending 1 1 0), ?q8 (Pending 1 1 0)][0 := ?q7 (Done Success)])"
    by (rule step.run [where w = "quiet morning"]) (simp_all add: sys_defs eval_defs)
  have s4: "step (full_db, [?q7 (Done Success), ?q8 (Pending 1 1 0)])
                 (full_db, [?q7 (Done Success), ?q8 (Pending 1 1 0)][1 := ?q8 (Idle 1)])"
    by (rule step.run [where w = "quiet morning"]) (simp_all add: sys_defs eval_defs)
  from s1 s2 s3 s4 show ?thesis
    by (simp add: sample_requests_def sample_final_def)
qed

section \<open>C1: reservations never exceed the seats\<close>

text \<open>
  C1: for a ride \<open>r\<close> that holds \<open>N \<ge> 0\<close> seats when a list of booking requests starts, in
  every state that the requests can reach, in any interleaving of their read and write
  phases, the number of requests that booked a seat on \<open>r\<close> (\<open>AlreadyBooked\<close> is not
  counted) is at most \<open>N\<close>, the seats left are not negative, and seats left and bookings
  add up to \<open>N\<close>.  Whenever a step changes the row of \<open>r\<close>, it is the write of a request that
  found \<open>version = old_version\<close> and \<open>seats_available > 0\<close>, and it takes one seat and adds
  one to the version.
\<close>

theorem reservations_never_exceed_seats:
  assumes ride0: "rides d0 r = Some ride0" and n0: "0 \<le> seats_available ride0"
    and idle: "\<forall>q \<in> set qs0. req_pc q = Idle 0"
    and reach: "step\<^sup>*\<^sup>* (d0, qs0) (d, qs)"
  shows "int (successes r qs) \<le> seats_available ride0
     \<and> (\<exists>ride. rides d r = Some ride \<and> 0 \<le> seats_available ride
           \<and> int (successes r qs) + seats_available ride = seats_available ride0)
     \<and> (\<forall>d' qs'. step (d, qs) (d', qs') \<and> rides d' r \<noteq> rides d r \<longrightarrow>
           (\<exists>i k v s ride. i < length qs \<and> req_ride (qs ! i) = r
              \<and> req_pc (qs ! i) = Pending k v s
              \<and> rides d r = Some ride \<and> version ride = v \<and> 0 < seats_available ride
              \<and> rides d' r = Some (ride\<lparr>seats_available := seats_available ride - 1,
                                          version := v + 1\<rparr>)))"
proof -
  let ?c = "seats_available ride0 + version ride0"
  have inv: "seat_invariant r (seats_available ride0) ?c (d, qs)"
    by (rule reachable_invariant [OF reach initial_invariant [OF ride0 n0 idle]])
  then obtain ride where ride: "rides d r = Some ride" and nn: "0 \<le> seats_available ride"
    and cnt: "int (successes r qs) + seats_available ride = seats_available ride0"
    and sv: "seats_available ride + version ride = ?c"
    and pend: "\<forall>q \<in> set qs. req_ride q = r \<longrightarrow>
                 (\<forall>k v s. req_pc q = Pending k v s \<longrightarrow> v + s + 1 = ?c)"
    by (auto simp: seat_invariant_def)
  have guard: "\<exists>i k v s ride. i < length qs \<and> req_ride (qs ! i) = r
              \<and> req_pc (qs ! i) = Pending k v s
              \<and> rides d r = Some ride \<and> version ride = v \<and> 0 < seats_available ride
              \<and> rides d' r = Some (ride\<lparr>seats_available := seats_available ride - 1,
                                          version := v + 1\<rparr>)"
    if st: "step (d, qs) (d', qs')" and ch: "rides d' r \<noteq> rides d r" for d' qs'
  proof -
    from st obtain i w q' where i: "i < length qs" and rs: "request_step w (qs ! i) d = (q', d')"
      by (auto elim: step.cases)
    from request_step_cases [OF rs] ch obtain k v s rd where
      w: "req_pc (qs ! i) = Pending k v s" "rides d (req_ride (qs ! i)) = Some rd"
        "version rd = v" "0 < seats_available rd"
        "d' = d\<lparr>rides := (rides d)(req_ride (qs ! i) \<mapsto>
                           rd\<lparr>seats_available := s, version := v + 1\<rparr>),
                      bookings := bookings d @ [(req_ride (qs ! i), req_uid (qs ! i))]\<rparr>"
      by auto
    from w(5) ch have r: "req_ride (qs ! i) = r" by (auto split: if_splits)
    with w ride have rd: "rd = ride" by simp
    from pend i r w(1) have "v + s + 1 = ?c" by (metis nth_mem)
    with sv w(3) rd have s: "s = seats_available ride - 1" by simp
    from w(5) r rd s have "rides d' r = Some (ride\<lparr>seats_available := seats_available ride - 1,
                                          version := v + 1\<rparr>)" by simp
    with i r w rd ride show ?thesis by blast
  qed
  from nn cnt have "int (successes r qs) \<le> seats_available ride0" by simp
  with ride nn cnt guard show ?thesis by blast
qed

text \<open>Two requests race for the one seat of the sample ride: one of them books it.\<close>

theorem reservations_never_exceed_seats_witness:
  "rides sample_db 1 = Some sample_ride \<and> 0 \<le> seats_available sample_ride
   \<and> step\<^sup>*\<^sup>* (sample_db, sample_requests) sample_final
   \<and> successes 1 (snd sample_final) = 1
   \<and> int (successes 1 (snd sample_final)) \<le> seats_available sample_ride"
  using reservations_never_exceed_seats
      [of sample_db 1 sample_ride sample_requests "fst sample_final" "snd sample_final"]
    sample_run
  by (simp add: sample_requests_def sample_final_def successes_def sample_defs)

section \<open>C2: the version counter\<close>

text \<open>
  C2 says that every applied seat mutation, a cancellation's seat release among them,
  increases the version by exactly 1.  \<open>cancel_booking\<close> writes the seats and the version
  it computed from the row it read, without the guard that \<open>book_ride\<close> has.  On a ride
  with two seats, one of them booked by passenger 7 (seats 1, version 2): passenger 7
  cancels, and between the read and the commit of the cancellation passenger 8 books
  (seats 0, version 3).  The cancellation then commits seats 2 and version 3: its seat
  mutation is applied, the version stays 3, and the ride shows two free seats while
  passenger 8 holds one of its two.
\<close>

theorem cancellation_racing_a_booking:
  "store (book_ride (\<lambda>k. quiet morning) (passenger_session 7) 1 two_seat_db)
     = two_seat_db\<lparr>rides := [1 \<mapsto> sample_ride\<lparr>seats_available := 1, version := 2\<rparr>],
                   bookings := [(1, 7)]\<rparr>
   \<and> before_write racing_booking
        (two_seat_db\<lparr>rides := [1 \<mapsto> sample_ride\<lparr>seats_available := 1, version := 2\<rparr>],
                     bookings := [(1, 7)]\<rparr>)
     = two_seat_db\<lparr>rides := [1 \<mapsto> sample_ride\<lparr>seats_available := 0, version := 3\<rparr>],
                   bookings := [(1, 7), (1, 8)]\<rparr>
   \<and> cancel_booking racing_booking (passenger_session 7) 1
        (two_seat_db\<lparr>rides := [1 \<mapsto> sample_ride\<lparr>seats_available := 1, version := 2\<rparr>],
                     bookings := [(1, 7)]\<rparr>)
     = (Cancelled,
        two_seat_db\<lparr>rides := [1 \<mapsto> sample_ride\<lparr>seats_available := 2, version := 3\<rparr>],
                    bookings := [(1, 8)]\<rparr>)"
  by (simp add: eval_defs two_seat_db_def racing_booking_def)

section \<open>C3: the active window\<close>

text \<open>
  C3, as the claim states it, fails on the last date that a \<open>datetime\<close> can hold: for a
  ride on 9999-12-31 from 23:00 to 01:00 the end instant is not one day later, because
  \<open>ride_dt_end += timedelta(days=1)\<close> raises \<open>OverflowError\<close>.
\<close>

theorem get_ride_datetime_last_date_overflow:
  "get_ride_datetime 3652059 (hm 23 0) (Some (hm 1 0)) = Inl OverflowError"
  by (simp add: get_ride_datetime_def time_defs)

text \<open>
  C3, amended: without an end time the end instant is the start instant, on every date.
  With an end time, on every date before 9999-12-31, the end instant is the end time on
  the ride's date when that is strictly after the start, and the end time on the next
  date otherwise (overnight ride).  On such a date a ride from 23:00 to 01:00 is not
  completed at 23:30 and is completed at 02:00 of the next date.
\<close>

theorem get_ride_datetime_window:
  "get_ride_datetime dd st None = Inr (combine dd st, combine dd st)
   \<and> (1 \<le> dd \<and> dd < max_ordinal \<longrightarrow>
        get_ride_datetime dd st (Some e)
          = Inr (combine dd st,
                 if dt_le (combine dd e) (combine dd st)
                 then combine (dd + 1) e else combine dd e))
   \<and> (1 \<le> dd \<and> dd < max_ordinal \<longrightarrow>
        get_ride_datetime dd (hm 23 0) (Some (hm 1 0))
          = Inr (combine dd (hm 23 0), combine (dd + 1) (hm 1 0))
        \<and> \<not> completed (combine (dd + 1) (hm 1 0)) (combine dd (hm 23 30))
        \<and> completed (combine (dd + 1) (hm 1 0)) (combine (dd + 1) (hm 2 0)))"
proof (intro conjI impI)
  show "get_ride_datetime dd st None = Inr (combine dd st, combine dd st)"
    by (rule get_ride_datetime_no_end)
next
  assume r: "1 \<le> dd \<and> dd < max_ordinal"
  show "get_ride_datetime dd st (Some e)
          = Inr (combine dd st,
                 if dt_le (combine dd e) (combine dd st)
                 then combine (dd + 1) e else combine dd e)"
    using r by (simp add: get_ride_datetime_overnight get_ride_datetime_same_day)
next
  assume r: "1 \<le> dd \<and> dd < max_ordinal"
  have le: "dt_le (combine dd (hm 1 0)) (combine dd (hm 23 0))"
    by (simp add: time_defs)
  show "get_ride_datetime dd (hm 23 0) (Some (hm 1 0))
          = Inr (combine dd (hm 23 0), combine (dd + 1) (hm 1 0))"
    using r le by (simp add: get_ride_datetime_overnight)
next
  show "\<not> completed (combine (dd + 1) (hm 1 0)) (combine dd (hm 23 30))"
    by (simp add: time_defs)
next
  show "completed (combine (dd + 1) (hm 1 0)) (combine (dd + 1) (hm 2 0))"
    by (simp add: time_defs)
qed

theorem get_ride_datetime_window_witness:
  "(1::int) \<le> 739000 \<and> (739000::int) < max_ordinal
   \<and> get_ride_datetime 739000 (hm 23 0) (Some (hm 1 0))
       = Inr (combine 739000 (hm 23 0), combine 739001 (hm 1 0))
   \<and> \<not> completed (combine 739001 (hm 1 0)) (combine 739000 (hm 23 30))
   \<and> completed (combine 739001 (hm 1 0)) (combine 739001 (hm 2 0))"
  using get_ride_datetime_window [of 739000 "hm 23 0" "hm 1 0"]
  by (simp add: time_defs)

section \<open>C4: reserving twice\<close>

text \<open>
  C4, as the claim states it, fails when the ride ends between the two calls: the check
  of the active window comes before the check for an existing booking, so the second call
  of a passenger who holds a booking returns \<open>RideCompleted\<close>, an error, two days later.
\<close>

theorem second_reserve_after_completion:
  "outcome_of (book_ride (\<lambda>k. quiet morning) (passenger_session 7) 1 sample_db) = Success
   \<and> outcome_of (book_ride (\<lambda>k. quiet two_days_later) (passenger_session 7) 1
        (store (book_ride (\<lambda>k. quiet morning) (passenger_session 7) 1 sample_db)))
       = RideCompleted
   \<and> category RideCompleted = Error"
  by (simp add: first_booking) (simp add: eval_defs)

text \<open>
  C4, amended: after a call of \<open>book_ride\<close> that booked the seat (no other request
  committing meanwhile), a second call for the same ride and passenger that is made while
  the ride is still active returns \<open>AlreadyBooked\<close>, flashed as \<open>info\<close> and not as an
  error, in its first attempt, and leaves the store as it is: seats, version and
  bookings.  The store holds exactly one booking of the passenger on the ride.
\<close>

theorem reserve_twice_idempotent:
  assumes calm: "\<forall>k. before_read (env k) = (\<lambda>d. d) \<and> before_write (env k) = (\<lambda>d. d)"
    and ok: "outcome_of (book_ride env ses rid d) = Success"
    and d1: "d1 = store (book_ride env ses rid d)"
    and uid: "user_id ses = Some uid"
    and ride: "rides d1 rid = Some ride1"
    and win: "get_ride_datetime (ride_date ride1) (ride_time ride1) (ride_end_time ride1) = Inr (s, e)"
    and act: "\<not> completed e (now (env2 1))"
    and w2: "before_read (env2 1) d1 = d1" "\<not> store_fault (env2 1)"
  shows "book_ride env2 ses rid d1
           = \<lparr>outcome_of = AlreadyBooked, store = d1, slept = [], attempts = 1\<rparr>
       \<and> category AlreadyBooked = Info
       \<and> count_list (bookings d1) (rid, uid) = 1"
proof -
  from book_ride_calm [OF calm ok] uid d1 obtain p ride where
    u: "\<not> is_rider ses" "users d uid = Some p" and r: "rides d rid = Some ride"
    and g: "\<not> (rider_gender_preference ride \<noteq> Some ''Any'' \<and>
                 Some (gender p) \<noteq> rider_gender_preference ride)"
    and nb: "\<not> find_booking d rid uid" and s: "d1 = booked rid uid ride d"
    by auto
  have r1: "ride1 = ride\<lparr>seats_available := seats_available ride - 1, version := version ride + 1\<rparr>"
    using ride by (simp add: s booked_def)
  have fb: "find_booking d1 rid uid" by (simp add: s booked_def find_booking_def)
  have us: "users d1 uid = Some p" using u by (simp add: s booked_def)
  have rp: "read_phase (now (env2 1)) p rid uid d1 = Inl AlreadyBooked"
    using ride g win act fb by (simp add: read_phase_def r1 completed_def)
  have at: "book_attempt (0 + 1) (env2 (0 + 1)) p rid uid d1 = Return AlreadyBooked d1"
    using w2 rp by (simp add: book_attempt_def)
  have "book_loop 0 env2 p rid uid d1 []
          = \<lparr>outcome_of = AlreadyBooked, store = d1, slept = [], attempts = 0 + 1\<rparr>"
    using book_loop_Return [of 0 env2 p rid uid d1 AlreadyBooked d1 "[]"] at
    by (simp add: max_retries_def)
  then have b2: "book_ride env2 ses rid d1
           = \<lparr>outcome_of = AlreadyBooked, store = d1, slept = [], attempts = 1\<rparr>"
    using uid u us by (simp add: book_ride_def)
  have "count_list (bookings d1) (rid, uid) = 1"
    using nb by (simp add: s booked_def find_booking_def count_list_0_iff)
  with b2 show ?thesis by simp
qed

theorem reserve_twice_idempotent_witness:
  "outcome_of (book_ride (\<lambda>k. quiet morning) (passenger_session 7) 1 sample_db) = Success
   \<and> \<not> completed (combine 739001 (hm 1 0)) (now (quiet morning))
   \<and> book_ride (\<lambda>k. quiet morning) (passenger_session 7) 1 full_db
       = \<lparr>outcome_of = AlreadyBooked, store = full_db, slept = [], attempts = 1\<rparr>
   \<and> count_list (bookings full_db) (1, 7) = 1"
  using reserve_twice_idempotent
      [where env = "\<lambda>k. quiet morning" and ses = "passenger_session 7" and rid = 1
        and d = sample_db and ?d1.0 = full_db and uid = 7
        and ?ride1.0 = "sample_ride\<lparr>seats_available := 0, version := 2\<rparr>"
        and s = "combine 739000 (hm 23 0)" and e = "combine 739001 (hm 1 0)"
        and ?env2.0 = "\<lambda>k. quiet morning"]
  by (simp add: first_booking) (simp add: eval_defs)

section \<open>C5: the checks of an attempt\<close>

text \<open>
  C5: every attempt, whatever its number, reads the store as it is then (\<open>d\<close>, after what
  other requests committed) and, when the store does not fail, checks in this order: no
  such ride gives \<open>NotFound\<close>; a gender preference that the passenger does not meet gives
  \<open>PolicyRejected\<close>; a ride whose window is over gives \<open>RideCompleted\<close>; an existing
  booking gives \<open>AlreadyBooked\<close>; no seat left gives \<open>RideFull\<close>.  Each of them ends the
  call with the store untouched, so a ride without seats gives \<open>RideFull\<close> in whichever
  attempt it is read.
\<close>

theorem attempt_checks_in_order:
  assumes nf: "\<not> store_fault w" and d: "d = before_read w d0"
  shows "(rides d rid = None \<longrightarrow> book_attempt k w p rid uid d0 = Return NotFound d)
   \<and> (\<forall>ride s e. rides d rid = Some ride \<longrightarrow>
        (rider_gender_preference ride \<noteq> Some ''Any'' \<and>
         Some (gender p) \<noteq> rider_gender_preference ride \<longrightarrow>
           book_attempt k w p rid uid d0 = Return PolicyRejected d)
      \<and> (\<not> (rider_gender_preference ride \<noteq> Some ''Any'' \<and>
             Some (gender p) \<noteq> rider_gender_preference ride) \<and>
         get_ride_datetime (ride_date ride) (ride_time ride) (ride_end_time ride) = Inr (s, e) \<longrightarrow>
           (completed e (now w) \<longrightarrow> book_attempt k w p rid uid d0 = Return RideCompleted d)
         \<and> (\<not> completed e (now w) \<and> find_booking d rid uid \<longrightarrow>
              book_attempt k w p rid uid d0 = Return AlreadyBooked d)
         \<and> (\<not> completed e (now w) \<and> \<not> find_booking d rid uid \<and> seats_available ride \<le> 0 \<longrightarrow>
              book_attempt k w p rid uid d0 = Return RideFull d
            \<and> (k < max_retries \<and> w = env (k + 1) \<longrightarrow>
                 book_loop k env p rid uid d0 sl
                   = \<lparr>outcome_of = RideFull, store = d, slept = sl, attempts = k + 1\<rparr>))))"
  using nf d
  by (auto simp: book_attempt_def read_phase_def completed_def book_loop_Return)

text \<open>The third attempt of passenger 8 on the sample ride, whose one seat is taken.\<close>

theorem attempt_checks_in_order_witness:
  "\<not> store_fault (quiet morning) \<and> rides full_db 1 \<noteq> None
   \<and> \<not> find_booking full_db 1 8
   \<and> book_attempt 2 (quiet morning) \<lparr>gender = ''Male''\<rparr> 1 8 full_db = Return RideFull full_db
   \<and> book_loop 2 (\<lambda>k. quiet morning) \<lparr>gender = ''Male''\<rparr> 1 8 full_db [80, 160]
       = \<lparr>outcome_of = RideFull, store = full_db, slept = [80, 160], attempts = 3\<rparr>"
  using attempt_checks_in_order
      [where w = "quiet morning" and d = full_db and ?d0.0 = full_db and rid = 1
        and k = 2 and p = "\<lparr>gender = ''Male''\<rparr>" and uid = 8
        and env = "\<lambda>k. quiet morning" and sl = "[80, 160]"]
  by (simp add: eval_defs)

section \<open>C6: the retry loop\<close>

text \<open>
  C6: \<open>book_ride\<close> makes at most \<open>max_retries = 4\<close> attempts.  The \<open>n\<close>-th sleep of a call
  lasts \<open>80 * n\<close> milliseconds (\<open>0.08 * attempt\<close> seconds).  The call ends with
  \<open>HighContention\<close> exactly when it has slept four times, that is after four attempts
  that ended in \<open>continue\<close>, with the sleeps 80, 160, 240 and 320 ms.  An \<open>UPDATE\<close> whose
  guard does not match (row count 0) leaves the store as it is, sleeps \<open>80 * attempt\<close> ms
  and continues with the next attempt.
\<close>

theorem retry_loop_bounded_backoff:
  "max_retries = 4
   \<and> attempts (book_ride env ses rid d) \<le> max_retries
   \<and> slept (book_ride env ses rid d)
       = map (\<lambda>j. 80 * j) [1 ..< Suc (length (slept (book_ride env ses rid d)))]
   \<and> (outcome_of (book_ride env ses rid d) = HighContention
        \<longleftrightarrow> length (slept (book_ride env ses rid d)) = max_retries)
   \<and> (outcome_of (book_ride env ses rid d) = HighContention \<longrightarrow>
        attempts (book_ride env ses rid d) = 4
        \<and> slept (book_ride env ses rid d) = [80, 160, 240, 320])
   \<and> (fst (conditional_update rid v s (v + 1) d') = 0 \<longrightarrow>
        write_phase k f rid uid v s d' = Continue d' (80 * k))"
proof -
  have m: "max_retries = 4" by (simp add: max_retries_def)
  have main: "attempts r \<le> max_retries
      \<and> slept r = map (\<lambda>j. 80 * j) [1 ..< Suc (length (slept r))]
      \<and> (outcome_of r = HighContention \<longleftrightarrow> length (slept r) = max_retries)
      \<and> (outcome_of r = HighContention \<longrightarrow> attempts r = 4 \<and> slept r = [80, 160, 240, 320])"
    if "r = book_loop 0 env p rid uid d []" for r p uid
  proof -
    from book_loop_trace [of 0 env p rid uid d "[]"] that obtain n where
      n: "slept r = map (\<lambda>j. 80 * j) [1 ..< 1 + n]"
      "(outcome_of r = HighContention \<and> attempts r = max_retries \<and> n = max_retries)
        \<or> (outcome_of r \<noteq> HighContention \<and> attempts r = n + 1 \<and> n < max_retries)"
      by auto
    from n(1) have len: "length (slept r) = n" by simp
    have sl: "slept r = map (\<lambda>j. 80 * j) [1 ..< Suc (length (slept r))]"
      using n(1) len by simp
    from n(2) show ?thesis
    proof
      assume h: "outcome_of r = HighContention \<and> attempts r = max_retries \<and> n = max_retries"
      then have "n = 4" by (simp add: max_retries_def)
      then have "slept r = [80, 160, 240, 320]" using n(1) by (simp add: upt_conv_Cons)
      then show ?thesis using h sl len by (simp add: max_retries_def)
    next
      assume h: "outcome_of r \<noteq> HighContention \<and> attempts r = n + 1 \<and> n < max_retries"
      then show ?thesis using sl len by simp
    qed
  qed
  have "attempts r \<le> max_retries
      \<and> slept r = map (\<lambda>j. 80 * j) [1 ..< Suc (length (slept r))]
      \<and> (outcome_of r = HighContention \<longleftrightarrow> length (slept r) = max_retries)
      \<and> (outcome_of r = HighContention \<longrightarrow> attempts r = 4 \<and> slept r = [80, 160, 240, 320])"
    if r: "r = book_ride env ses rid d" for r
  proof (cases "\<exists>uid p. user_id ses = Some uid \<and> \<not> is_rider ses \<and> users d uid = Some p")
    case True
    then obtain uid p where "user_id ses = Some uid" "\<not> is_rider ses" "users d uid = Some p"
      by blast
    then have "r = book_loop 0 env p rid uid d []" using r by (simp add: book_ride_def)
    then show ?thesis by (rule main)
  next
    case False
    then have "outcome_of r \<noteq> HighContention \<and> slept r = [] \<and> attempts r = 0"
      using r by (auto simp: book_ride_def split: option.splits)
    then show ?thesis by (simp add: m)
  qed
  then show ?thesis using m write_phase_mismatch by auto
qed

text \<open>Another writer bumps the version before each of the four \<open>UPDATE\<close>s.\<close>

theorem retry_loop_bounded_backoff_witness:
  "outcome_of (book_ride contended (passenger_session 7) 1 sample_db) = HighContention
   \<and> attempts (book_ride contended (passenger_session 7) 1 sample_db) = 4
   \<and> slept (book_ride contended (passenger_session 7) 1 sample_db) = [80, 160, 240, 320]
   \<and> fst (conditional_update 1 1 0 (1 + 1) (before_write (contended 1) sample_db)) = 0
   \<and> write_phase 1 False 1 7 1 0 (before_write (contended 1) sample_db)
       = Continue (before_write (contended 1) sample_db) (80 * 1)"
  using retry_loop_bounded_backoff
      [where env = contended and ses = "passenger_session 7" and rid = 1
        and d = sample_db and v = 1 and s = 0 and d' = "before_write (contended 1) sample_db"
        and k = 1 and f = False and uid = 7]
  by (simp add: contended_run) (simp add: eval_defs contended_def)

section \<open>C7: reserve, then release\<close>

text \<open>
  C7: when a passenger books a seat on a ride and then cancels the booking, both with
  success and with no other request committing meanwhile, the ride has the seats it had
  before the booking and its version is larger by exactly 2, so not the version it had;
  the bookings are those from before.
\<close>

theorem reserve_then_release_round_trip:
  assumes calm: "\<forall>k. before_read (env k) = (\<lambda>d. d) \<and> before_write (env k) = (\<lambda>d. d)"
    and ride: "rides d rid = Some ride"
    and ok: "outcome_of (book_ride env ses rid d) = Success"
    and d1: "d1 = store (book_ride env ses rid d)"
    and w: "before_write w d1 = d1"
    and can: "fst (cancel_booking w ses rid d1) = Cancelled"
    and d2: "d2 = snd (cancel_booking w ses rid d1)"
  shows "rides d1 rid = Some (ride\<lparr>seats_available := seats_available ride - 1,
                                   version := version ride + 1\<rparr>)
       \<and> rides d2 rid = Some (ride\<lparr>version := version ride + 2\<rparr>)
       \<and> bookings d2 = bookings d
       \<and> version ride + 2 \<noteq> version ride"
proof -
  from book_ride_calm [OF calm ok] ride d1 obtain uid p where
    u: "user_id ses = Some uid" "\<not> is_rider ses" "users d uid = Some p"
    and nb: "\<not> find_booking d rid uid" and s: "d1 = booked rid uid ride d"
    by auto
  have r1: "rides d1 rid = Some (ride\<lparr>seats_available := seats_available ride - 1,
                                   version := version ride + 1\<rparr>)"
    by (simp add: s booked_def)
  have rm: "remove1 (rid, uid) (bookings d @ [(rid, uid)]) = bookings d"
    using nb by (simp add: find_booking_def remove1_append)
  from can w u r1 have "d2 = d1\<lparr>bookings := remove1 (rid, uid) (bookings d1),
       rides := (rides d1)(rid \<mapsto> ride\<lparr>seats_available := seats_available ride - 1 + 1,
                                          version := version ride + 1 + 1\<rparr>)\<rparr>"
    unfolding d2
    by (auto simp: cancel_booking_def Let_def split: option.splits if_splits sum.splits prod.splits)
  then have "rides d2 rid = Some (ride\<lparr>version := version ride + 2\<rparr>) \<and> bookings d2 = bookings d"
    using rm by (simp add: s booked_def)
  with r1 show ?thesis by simp
qed

theorem reserve_then_release_round_trip_witness:
  "rides sample_db 1 = Some sample_ride
   \<and> outcome_of (book_ride (\<lambda>k. quiet morning) (passenger_session 7) 1 sample_db) = Success
   \<and> fst (cancel_booking (quiet morning) (passenger_session 7) 1 full_db) = Cancelled
   \<and> rides (snd (cancel_booking (quiet morning) (passenger_session 7) 1 full_db)) 1
       = Some (sample_ride\<lparr>version := 3\<rparr>)
   \<and> seats_available sample_ride = 1 \<and> version sample_ride = 1"
  using reserve_then_release_round_trip
      [where env = "\<lambda>k. quiet morning" and d = sample_db and rid = 1
        and ride = sample_ride and ses = "passenger_session 7" and ?d1.0 = full_db
        and w = "quiet morning"
        and ?d2.0 = "snd (cancel_booking (quiet morning) (passenger_session 7) 1 full_db)"]
  by (simp add: first_booking) (simp add: eval_defs)

section \<open>C8: cancelling\<close>

text \<open>
  C8: a passenger's cancellation on a ride whose window is over is rejected with
  \<open>RideCompleted\<close>, an error, and leaves the store as it is: seats, version and bookings.
  A cancellation succeeds only when the passenger holds a booking on the ride and the
  ride is not completed; then, no other request committing between its read and its
  commit, it deletes the booking, adds one seat and adds one to the version.
\<close>

theorem cancel_booking_contract:
  "(user_id ses = Some uid \<and> \<not> is_rider ses \<and> rides d rid = Some ride
      \<and> get_ride_datetime (ride_date ride) (ride_time ride) (ride_end_time ride) = Inr (s, e)
      \<and> completed e (now w) \<longrightarrow>
        cancel_booking w ses rid d = (RideCompleted, d) \<and> category RideCompleted = Error)
   \<and> (fst (cancel_booking w ses rid d) = Cancelled \<longrightarrow>
        (\<exists>uid ride s e. user_id ses = Some uid \<and> rides d rid = Some ride
           \<and> get_ride_datetime (ride_date ride) (ride_time ride) (ride_end_time ride) = Inr (s, e)
           \<and> \<not> completed e (now w) \<and> find_booking d rid uid
           \<and> (before_write w d = d \<longrightarrow>
                snd (cancel_booking w ses rid d)
                  = d\<lparr>bookings := remove1 (rid, uid) (bookings d),
                      rides := (rides d)(rid \<mapsto>
                        ride\<lparr>seats_available := seats_available ride + 1,
                             version := version ride + 1\<rparr>)\<rparr>)))"
proof (intro conjI impI)
  assume "user_id ses = Some uid \<and> \<not> is_rider ses \<and> rides d rid = Some ride
      \<and> get_ride_datetime (ride_date ride) (ride_time ride) (ride_end_time ride) = Inr (s, e)
      \<and> completed e (now w)"
  then show "cancel_booking w ses rid d = (RideCompleted, d)"
    by (simp add: cancel_booking_def completed_def)
next
  show "category RideCompleted = Error" by simp
next
  assume c: "fst (cancel_booking w ses rid d) = Cancelled"
  from cancel_only_with_booking [OF c] obtain uid ride s e where
    h: "user_id ses = Some uid" "\<not> is_rider ses" "rides d rid = Some ride"
      "get_ride_datetime (ride_date ride) (ride_time ride) (ride_end_time ride) = Inr (s, e)"
      "\<not> completed e (now w)" "find_booking d rid uid"
    by blast
  have "snd (cancel_booking w ses rid d)
          = d\<lparr>bookings := remove1 (rid, uid) (bookings d),
              rides := (rides d)(rid \<mapsto> ride\<lparr>seats_available := seats_available ride + 1,
                                             version := version ride + 1\<rparr>)\<rparr>"
    if "before_write w d = d"
    using c h that
    by (auto simp: cancel_booking_def completed_def Let_def split: option.splits if_splits)
  with h show "\<exists>uid ride s e. user_id ses = Some uid \<and> rides d rid = Some ride
           \<and> get_ride_datetime (ride_date ride) (ride_time ride) (ride_end_time ride) = Inr (s, e)
           \<and> \<not> completed e (now w) \<and> find_booking d rid uid
           \<and> (before_write w d = d \<longrightarrow>
                snd (cancel_booking w ses rid d)
                  = d\<lparr>bookings := remove1 (rid, uid) (bookings d),
                      rides := (rides d)(rid \<mapsto>
                        ride\<lparr>seats_available := seats_available ride + 1,
                             version := version ride + 1\<rparr>)\<rparr>)"
    by blast
qed

theorem cancel_booking_contract_witness:
  "completed (combine 739001 (hm 1 0)) (now (quiet two_days_later))
   \<and> cancel_booking (quiet two_days_later) (passenger_session 7) 1 full_db = (RideCompleted, full_db)
   \<and> cancel_booking (quiet morning) (passenger_session 7) 1 full_db
       = (Cancelled, full_db\<lparr>bookings := [],
            rides := [1 \<mapsto> sample_ride\<lparr>seats_available := 1, version := 3\<rparr>]\<rparr>)"
  using cancel_booking_contract
      [where ses = "passenger_session 7" and uid = 7 and d = full_db and rid = 1
        and ride = "sample_ride\<lparr>seats_available := 0, version := 2\<rparr>"
        and s = "combine 739000 (hm 23 0)" and e = "combine 739001 (hm 1 0)"
        and w = "quiet two_days_later"]
    cancel_booking_contract
      [where ses = "passenger_session 7" and uid = 7 and d = full_db and rid = 1
        and ride = "sample_ride\<lparr>seats_available := 0, version := 2\<rparr>"
        and s = "combine 739000 (hm 23 0)" and e = "combine 739001 (hm 1 0)"
        and w = "quiet morning"]
  by (simp add: eval_defs)

section \<open>C9: a racing duplicate\<close>

text \<open>
  C9: when the \<open>UPDATE\<close> of an attempt has taken a seat and the store already holds a
  booking of the passenger on the ride (inserted since the attempt's reads), the insert
  is rejected with \<open>IntegrityError\<close>, the transaction is rolled back, and the call ends in
  that attempt with \<open>AlreadyBooked\<close>, flashed as \<open>info\<close>: the store is the one the
  \<open>UPDATE\<close> found, with no seat taken by this call.
\<close>

theorem duplicate_insert_is_already_booked:
  assumes nf: "\<not> store_fault w"
    and rd: "read_phase (now w) p rid uid (before_read w d0) = Inr (v, s)"
    and dw: "d_w = before_write w (before_read w d0)"
    and upd: "conditional_update rid v s (v + 1) d_w = (1, d_u)"
    and dup: "find_booking d_w rid uid"
  shows "commit_booking (integrity_fault w) rid uid d_u = Inl IntegrityError
     \<and> book_attempt k w p rid uid d0 = Return AlreadyBooked d_w
     \<and> category AlreadyBooked = Info
     \<and> (k < max_retries \<and> w = env (k + 1) \<longrightarrow>
          book_loop k env p rid uid d0 sl
            = \<lparr>outcome_of = AlreadyBooked, store = d_w, slept = sl, attempts = k + 1\<rparr>)"
proof -
  have b: "find_booking d_u rid uid"
    using dup conditional_update_bookings [OF upd] by (simp add: find_booking_def)
  then have c: "commit_booking (integrity_fault w) rid uid d_u = Inl IntegrityError"
    by (simp add: commit_booking_def)
  have a: "book_attempt k w p rid uid d0 = Return AlreadyBooked d_w" for k
    using nf rd dw upd c dup by (simp add: book_attempt_def write_phase_def)
  show ?thesis
    using c a by (auto simp: book_loop_Return)
qed

theorem duplicate_insert_is_already_booked_witness:
  "\<not> store_fault racing_duplicate
   \<and> read_phase (now racing_duplicate) \<lparr>gender = ''Female''\<rparr> 1 7 sample_db = Inr (1, 0)
   \<and> fst (conditional_update 1 1 0 (1 + 1) (before_write racing_duplicate sample_db)) = 1
   \<and> find_booking (before_write racing_duplicate sample_db) 1 7
   \<and> book_attempt 1 racing_duplicate \<lparr>gender = ''Female''\<rparr> 1 7 sample_db
       = Return AlreadyBooked (sample_db\<lparr>bookings := [(1, 7)]\<rparr>)
   \<and> book_ride (\<lambda>k. racing_duplicate) (passenger_session 7) 1 sample_db
       = \<lparr>outcome_of = AlreadyBooked, store = sample_db\<lparr>bookings := [(1, 7)]\<rparr>,
          slept = [], attempts = 1\<rparr>"
  using duplicate_insert_is_already_booked
      [where w = racing_duplicate and p = "\<lparr>gender = ''Female''\<rparr>" and rid = 1
        and uid = 7 and ?d0.0 = sample_db and v = 1 and s = 0
        and d_w = "before_write racing_duplicate sample_db"
        and d_u = "snd (conditional_update 1 1 0 (1 + 1) (before_write racing_duplicate sample_db))"
        and k = 0 and env = "\<lambda>k. racing_duplicate" and sl = "[]"]
  by (simp add: eval_defs racing_duplicate_def)

section \<open>C10: cancelling without a booking\<close>

text \<open>
  C10: a passenger's cancellation on a ride that exists and is not completed, when the
  passenger holds no booking on it, ends with \<open>BookingNotFound\<close>, an error, and leaves the
  store as it is: the ride's seats and version and every booking.
\<close>

theorem cancel_without_booking:
  assumes "user_id ses = Some uid" and "\<not> is_rider ses"
    and "rides d rid = Some ride"
    and "get_ride_datetime (ride_date ride) (ride_time ride) (ride_end_time ride) = Inr (s, e)"
    and "\<not> completed e (now w)"
    and "\<not> find_booking d rid uid"
  shows "cancel_booking w ses rid d = (BookingNotFound, d) \<and> category BookingNotFound = Error"
  using assms by (simp add: cancel_booking_def completed_def)

theorem cancel_without_booking_witness:
  "rides sample_db 1 = Some sample_ride
   \<and> \<not> completed (combine 739001 (hm 1 0)) (now (quiet morning))
   \<and> \<not> find_booking sample_db 1 8
   \<and> cancel_booking (quiet morning) (passenger_session 8) 1 sample_db = (BookingNotFound, sample_db)"
  using cancel_without_booking
      [where ses = "passenger_session 8" and uid = 8 and d = sample_db and rid = 1
        and ride = sample_ride and s = "combine 739000 (hm 23 0)"
        and e = "combine 739001 (hm 1 0)" and w = "quiet morning"]
  by (simp add: eval_defs)

end
